theory Spec2Isabelle
  imports Complex_Main "HOL-Library.Word" "HOL-Library.Log_Nat"
begin

section \<open>An NTP client: \<open>lib/ntp-client.js\<close>\<close>

text \<open>
  The module exports three constants and the function \<open>getNetworkTime\<close>, which sends one
  48-byte request over UDP and registers three handlers: a timer, a socket \<open>error\<close>
  listener and the completion callback of \<open>send\<close>, which on success registers a one-shot
  \<open>message\<close> listener that decodes the reply. The handlers are embedded as functions on
  the state of one query; the Node.js runtime is an event list that runs them.
\<close>

subsection \<open>JavaScript numbers\<close>

text \<open>
  A JavaScript number is an IEEE-754 binary64 value. The decoder only produces \<open>NaN\<close>
  and finite values of magnitude below \<open>2^53\<close>, so a number is modelled as \<open>NaN\<close> or a
  rational, and every arithmetic operation rounds its exact result to the nearest value
  with a 53-bit significand, ties to even (\<open>binary64\<close>). Infinities, signed zeros and the
  exponent limits of the format are out of reach of this program and are not modelled.
\<close>

datatype js_number = Num rat | NaN

text \<open>\<open>ilog2 x\<close> is the exponent \<open>e\<close> with \<open>2^e \<le> x < 2^(e+1)\<close>, for \<open>x > 0\<close>.\<close>

definition ilog2 :: "rat \<Rightarrow> int" where
  "ilog2 x = (if 1 \<le> x then bitlen \<lfloor>x\<rfloor> - 1 else - bitlen (\<lceil>1 / x\<rceil> - 1))"

definition round_half_even :: "rat \<Rightarrow> int" where
  "round_half_even q =
     (let f = \<lfloor>q\<rfloor>; r = q - of_int f
      in if r < 1 / 2 then f else if 1 / 2 < r then f + 1 else if even f then f else f + 1)"

definition binary64 :: "rat \<Rightarrow> rat" where
  "binary64 x =
     (if x = 0 then 0
      else let u = 2 powi (ilog2 \<bar>x\<bar> - 52) in of_int (round_half_even (x / u)) * u)"

fun js_add :: "js_number \<Rightarrow> js_number \<Rightarrow> js_number" where
  "js_add (Num x) (Num y) = Num (binary64 (x + y))"
| "js_add _ _ = NaN"

fun js_mul :: "js_number \<Rightarrow> js_number \<Rightarrow> js_number" where
  "js_mul (Num x) (Num y) = Num (binary64 (x * y))"
| "js_mul _ _ = NaN"

text \<open>Division by zero (an infinity or \<open>NaN\<close> in JavaScript) does not occur: the only
  divisor in the program is the constant \<open>0x100000000\<close>.\<close>

fun js_div :: "js_number \<Rightarrow> js_number \<Rightarrow> js_number" where
  "js_div (Num x) (Num y) = (if y = 0 then NaN else Num (binary64 (x / y)))"
| "js_div _ _ = NaN"

text \<open>\<open>ToNumber\<close> of what indexing a buffer gives: \<open>undefined\<close> becomes \<open>NaN\<close>.\<close>

fun ToNumber :: "js_number option \<Rightarrow> js_number" where
  "ToNumber None = NaN"
| "ToNumber (Some v) = v"

text \<open>\<open>ToIntegerOrInfinity\<close> truncates a finite number towards zero.\<close>

definition trunc :: "rat \<Rightarrow> int" where
  "trunc x = (if 0 \<le> x then \<lfloor>x\<rfloor> else \<lceil>x\<rceil>)"

subsection \<open>Buffers\<close>

type_synonym byte = "8 word"
type_synonym buffer = "byte list"

text \<open>\<open>new Buffer(n)\<close> allocates \<open>n\<close> bytes without clearing them on the Node.js versions of
  the module's time: \<open>mem\<close> is whatever the allocator's memory held.\<close>

definition new_Buffer :: "nat \<Rightarrow> byte list \<Rightarrow> buffer" where
  "new_Buffer n mem = map (\<lambda>i. if i < length mem then mem ! i else 0) [0..<n]"

text \<open>\<open>buf[i]\<close>: a byte as a number, \<open>undefined\<close> (\<open>None\<close>) beyond the end.\<close>

definition buf_get :: "buffer \<Rightarrow> nat \<Rightarrow> js_number option" where
  "buf_get buf i = (if i < length buf then Some (Num (of_nat (unat (buf ! i)))) else None)"

text \<open>\<open>buf[i] = v\<close>: stores \<open>v\<close> modulo 256; a write beyond the end is ignored.\<close>

definition buf_set :: "buffer \<Rightarrow> nat \<Rightarrow> nat \<Rightarrow> buffer" where
  "buf_set buf i v = (if i < length buf then buf[i := of_nat v] else buf)"

subsection \<open>The exported constants\<close>

definition defaultNtpPort :: nat where
  "defaultNtpPort = 123"

definition defaultNtpServer :: string where
  "defaultNtpServer = ''pool.ntp.org''"

definition ntpReplyTimeout :: nat where
  "ntpReplyTimeout = 10000"

subsection \<open>The request packet\<close>

text \<open>The loop \<open>for (let i = 1; i < 48; i += 1) ntpData[i] = 0\<close>.\<close>

function fill_loop :: "nat \<Rightarrow> buffer \<Rightarrow> buffer" where
  "fill_loop i ntpData = (if i < 48 then fill_loop (i + 1) (buf_set ntpData i 0) else ntpData)"
  by pat_completeness auto
termination
  by (relation "measure (\<lambda>(i, ntpData). 48 - i)") auto

declare fill_loop.simps [simp del]

definition ntpData :: "byte list \<Rightarrow> buffer" where
  "ntpData mem = fill_loop 1 (buf_set (new_Buffer 48 mem) 0 0x1B)"

subsection \<open>The state of one query\<close>

text \<open>The values a caller can pass as \<open>callback\<close>, as far as \<open>typeof\<close> tells them apart.\<close>

datatype js_value =
  JSUndefined | JSNull | JSBoolean bool | JSNumber js_number | JSString string
  | JSObject | JSFunction

fun typeof :: "js_value \<Rightarrow> string" where
  "typeof JSUndefined = ''undefined''"
| "typeof JSNull = ''object''"
| "typeof (JSBoolean _) = ''boolean''"
| "typeof (JSNumber _) = ''number''"
| "typeof (JSString _) = ''string''"
| "typeof JSObject = ''object''"
| "typeof JSFunction = ''function''"

text \<open>The first argument of the callback: the string of the timeout handler, or the
  error object that the runtime handed to a listener.\<close>

datatype err = Str string | ErrorObject string

text \<open>A \<open>Date\<close> object holds its time value: milliseconds since 1970-01-01T00:00:00Z, or
  \<open>NaN\<close> for an invalid date.\<close>

datatype date = Date js_number

text \<open>\<open>callback(err, null)\<close> is \<open>Failure err\<close>, \<open>callback(null, date)\<close> is \<open>Success date\<close>.\<close>

datatype outcome = Failure err | Success date

record datagram =
  payload :: buffer
  dst_port :: nat
  dst_address :: string

datatype timer = NoTimer | Armed nat | Cleared | Fired

record query =
  sockets :: nat
  close_calls :: nat
  uncaught :: nat
  sent :: "datagram list"
  send_pending :: bool
  timeout :: timer
  errorFired :: bool
  error_listener :: bool
  message_listener :: bool
  callbacks :: "outcome list"

text \<open>
  \<open>sockets\<close> counts the calls of \<open>dgram.createSocket\<close>, \<open>close_calls\<close> those of
  \<open>client.close()\<close>, \<open>uncaught\<close> the exceptions that left a handler; \<open>sent\<close> are the
  datagrams handed to \<open>client.send\<close>, \<open>send_pending\<close> says that the completion callback of
  \<open>send\<close> has not run yet, and \<open>callbacks\<close> lists the invocations of \<open>callback\<close> in order.
\<close>

definition idle :: query where
  "idle = \<lparr>sockets = 0, close_calls = 0, uncaught = 0, sent = [], send_pending = False,
           timeout = NoTimer, errorFired = False, error_listener = False,
           message_listener = False, callbacks = []\<rparr>"

definition clearTimeout :: "query \<Rightarrow> query" where
  "clearTimeout q = (case timeout q of Armed d \<Rightarrow> q\<lparr>timeout := Cleared\<rparr> | _ \<Rightarrow> q)"

definition callback :: "outcome \<Rightarrow> query \<Rightarrow> query" where
  "callback out q = q\<lparr>callbacks := callbacks q @ [out]\<rparr>"

text \<open>\<open>client.close()\<close> closes an open socket and throws \<open>ERR_SOCKET_DGRAM_NOT_RUNNING\<close>
  on a closed one: \<open>Inl\<close> is the state in which the exception leaves the handler.\<close>

definition client_close :: "query \<Rightarrow> query + query" where
  "client_close q =
     (if close_calls q = 0 then Inr (q\<lparr>close_calls := 1\<rparr>)
      else Inl (q\<lparr>close_calls := Suc (close_calls q), uncaught := Suc (uncaught q)\<rparr>))"

subsection \<open>Dates\<close>

text \<open>
  The time arithmetic of ECMAScript (section "Date Objects"), as far as the decoder uses
  it. \<open>new Date('Jan 01 1900 GMT')\<close> is the date whose time value is
  \<open>TimeFromYear(1900)\<close>, the first instant of 1900 in UTC.
\<close>

definition msPerSecond :: int where "msPerSecond = 1000"
definition msPerMinute :: int where "msPerMinute = 60000"
definition msPerHour :: int where "msPerHour = 3600000"
definition msPerDay :: int where "msPerDay = 86400000"

definition DayFromYear :: "int \<Rightarrow> int" where
  "DayFromYear y =
     365 * (y - 1970) + (y - 1969) div 4 - (y - 1901) div 100 + (y - 1601) div 400"

definition TimeFromYear :: "int \<Rightarrow> int" where
  "TimeFromYear y = msPerDay * DayFromYear y"

definition new_Date_1900 :: date where
  "new_Date_1900 = Date (Num (of_int (TimeFromYear 1900)))"

fun Day :: "js_number \<Rightarrow> js_number" where
  "Day (Num t) = Num (of_int \<lfloor>t / of_int msPerDay\<rfloor>)"
| "Day NaN = NaN"

fun HourFromTime :: "js_number \<Rightarrow> js_number" where
  "HourFromTime (Num t) = Num (of_int (\<lfloor>t / of_int msPerHour\<rfloor> mod 24))"
| "HourFromTime NaN = NaN"

fun MinFromTime :: "js_number \<Rightarrow> js_number" where
  "MinFromTime (Num t) = Num (of_int (\<lfloor>t / of_int msPerMinute\<rfloor> mod 60))"
| "MinFromTime NaN = NaN"

fun SecFromTime :: "js_number \<Rightarrow> js_number" where
  "SecFromTime (Num t) = Num (of_int (\<lfloor>t / of_int msPerSecond\<rfloor> mod 60))"
| "SecFromTime NaN = NaN"

fun msFromTime :: "js_number \<Rightarrow> js_number" where
  "msFromTime (Num t) = Num (of_int (\<lfloor>t\<rfloor> mod msPerSecond))"
| "msFromTime NaN = NaN"

fun ToIntegerOrInfinity :: "js_number \<Rightarrow> js_number" where
  "ToIntegerOrInfinity (Num x) = Num (of_int (trunc x))"
| "ToIntegerOrInfinity NaN = Num 0"

fun MakeTime :: "js_number \<Rightarrow> js_number \<Rightarrow> js_number \<Rightarrow> js_number \<Rightarrow> js_number" where
  "MakeTime (Num hour) (Num minute) (Num sec) (Num ms) =
     js_add
       (js_add
         (js_add (js_mul (ToIntegerOrInfinity (Num hour)) (Num (of_int msPerHour)))
                 (js_mul (ToIntegerOrInfinity (Num minute)) (Num (of_int msPerMinute))))
         (js_mul (ToIntegerOrInfinity (Num sec)) (Num (of_int msPerSecond))))
       (ToIntegerOrInfinity (Num ms))"
| "MakeTime _ _ _ _ = NaN"

definition MakeDate :: "js_number \<Rightarrow> js_number \<Rightarrow> js_number" where
  "MakeDate day time = js_add (js_mul day (Num (of_int msPerDay))) time"

fun TimeClip :: "js_number \<Rightarrow> js_number" where
  "TimeClip (Num t) = (if 8640000000000000 < \<bar>t\<bar> then NaN else ToIntegerOrInfinity (Num t))"
| "TimeClip NaN = NaN"

fun getUTCMilliseconds :: "date \<Rightarrow> js_number" where
  "getUTCMilliseconds (Date t) = msFromTime t"

fun setUTCMilliseconds :: "date \<Rightarrow> js_number \<Rightarrow> date" where
  "setUTCMilliseconds (Date t) ms =
     Date (TimeClip (MakeDate (Day t)
             (MakeTime (HourFromTime t) (MinFromTime t) (SecFromTime t) ms)))"

subsection \<open>Decoding the reply\<close>

definition offsetTransmitTime :: nat where
  "offsetTransmitTime = 40"

text \<open>The loop \<open>for (let i = 0; i <= 3; i += 1)\<close> over the seconds.\<close>

function seconds_loop :: "buffer \<Rightarrow> nat \<Rightarrow> js_number \<Rightarrow> js_number" where
  "seconds_loop msg i intpart =
     (if i \<le> 3
      then seconds_loop msg (i + 1)
             (js_add (js_mul (Num 256) intpart) (ToNumber (buf_get msg (offsetTransmitTime + i))))
      else intpart)"
  by pat_completeness auto
termination
  by (relation "measure (\<lambda>(msg, i, intpart). 4 - i)") auto

declare seconds_loop.simps [simp del]

text \<open>The loop \<open>for (let i = 4; i <= 7; i += 1)\<close> over the fraction.\<close>

function fraction_loop :: "buffer \<Rightarrow> nat \<Rightarrow> js_number \<Rightarrow> js_number" where
  "fraction_loop msg i fractpart =
     (if i \<le> 7
      then fraction_loop msg (i + 1)
             (js_add (js_mul (Num 256) fractpart) (ToNumber (buf_get msg (offsetTransmitTime + i))))
      else fractpart)"
  by pat_completeness auto
termination
  by (relation "measure (\<lambda>(msg, i, fractpart). 8 - i)") auto

declare fraction_loop.simps [simp del]

definition intpart_of :: "buffer \<Rightarrow> js_number" where
  "intpart_of msg = seconds_loop msg 0 (Num 0)"

definition fractpart_of :: "buffer \<Rightarrow> js_number" where
  "fractpart_of msg = fraction_loop msg 4 (Num 0)"

definition milliseconds_of :: "buffer \<Rightarrow> js_number" where
  "milliseconds_of msg =
     js_add (js_mul (intpart_of msg) (Num 1000))
            (js_div (js_mul (fractpart_of msg) (Num 1000)) (Num 4294967296))"

definition date_of :: "buffer \<Rightarrow> date" where
  "date_of msg =
     (let date = new_Date_1900
      in setUTCMilliseconds date (js_add (getUTCMilliseconds date) (milliseconds_of msg)))"

subsection \<open>The handlers\<close>

text \<open>The timer's function, lines 45 to 48.\<close>

definition on_timeout :: "query \<Rightarrow> query" where
  "on_timeout q =
     (case client_close q of
        Inl q' \<Rightarrow> q'
      | Inr q' \<Rightarrow> callback (Failure (Str ''Timeout waiting for NTP response.'')) q')"

text \<open>The listener of the socket's \<open>error\<close> event, lines 56 to 65. It does not close
  the socket.\<close>

definition on_error :: "err \<Rightarrow> query \<Rightarrow> query" where
  "on_error e q =
     (if errorFired q then q
      else clearTimeout ((callback (Failure e) q)\<lparr>errorFired := True\<rparr>))"

text \<open>The one-shot listener of the socket's \<open>message\<close> event, lines 79 to 106.\<close>

definition on_message :: "buffer \<Rightarrow> query \<Rightarrow> query" where
  "on_message msg q =
     (case client_close (clearTimeout q) of
        Inl q' \<Rightarrow> q'
      | Inr q' \<Rightarrow> callback (Success (date_of msg)) q')"

text \<open>The completion callback of \<open>send\<close>, lines 67 to 107: \<open>None\<close> is a falsy \<open>err\<close>.\<close>

definition on_send :: "err option \<Rightarrow> query \<Rightarrow> query" where
  "on_send r q =
     (case r of
        Some e \<Rightarrow>
          if errorFired q then q
          else (case client_close ((callback (Failure e) (clearTimeout q))\<lparr>errorFired := True\<rparr>) of
                  Inl q' \<Rightarrow> q'
                | Inr q' \<Rightarrow> q')
      | None \<Rightarrow> q\<lparr>message_listener := True\<rparr>)"

subsection \<open>\<open>getNetworkTime\<close>\<close>

text \<open>\<open>server\<close> and \<open>port\<close> are \<open>None\<close> when the caller passes \<open>undefined\<close>: the default
  parameter values apply. The result is the state the call leaves behind.\<close>

definition getNetworkTime :: "byte list \<Rightarrow> string option \<Rightarrow> nat option \<Rightarrow> js_value \<Rightarrow> query" where
  "getNetworkTime mem server port cb =
     (if cb = JSNull \<or> typeof cb \<noteq> ''function'' then idle
      else let server' = (case server of None \<Rightarrow> defaultNtpServer | Some s \<Rightarrow> s);
               port' = (case port of None \<Rightarrow> defaultNtpPort | Some p \<Rightarrow> p);
               data = ntpData mem
           in idle\<lparr>sockets := 1,
                   timeout := Armed ntpReplyTimeout,
                   error_listener := True,
                   sent := [\<lparr>payload = take (length data) (drop 0 data),
                             dst_port = port', dst_address = server'\<rparr>],
                   send_pending := True\<rparr>)"

subsection \<open>The runtime\<close>

text \<open>
  What Node.js can do to a query. The timer's function runs at most once, and only while
  the timer is armed. An \<open>error\<close> event runs its listener whenever it is emitted. The
  completion callback of \<open>send\<close> runs once. A datagram runs the \<open>message\<close> listener only
  if it is registered and the socket is open (\<open>close\<close> stops the socket from listening),
  and removes it (\<open>once\<close>). An event that is not enabled leaves the query as it is.
\<close>

datatype event = TimerFires | SocketError err | SendDone "err option" | Datagram buffer

fun enabled :: "event \<Rightarrow> query \<Rightarrow> bool" where
  "enabled TimerFires q = (case timeout q of Armed d \<Rightarrow> True | _ \<Rightarrow> False)"
| "enabled (SocketError e) q = error_listener q"
| "enabled (SendDone r) q = send_pending q"
| "enabled (Datagram msg) q = (message_listener q \<and> close_calls q = 0)"

fun handle :: "event \<Rightarrow> query \<Rightarrow> query" where
  "handle TimerFires q = on_timeout (q\<lparr>timeout := Fired\<rparr>)"
| "handle (SocketError e) q = on_error e q"
| "handle (SendDone r) q = on_send r (q\<lparr>send_pending := False\<rparr>)"
| "handle (Datagram msg) q = on_message msg (q\<lparr>message_listener := False\<rparr>)"

definition step :: "event \<Rightarrow> query \<Rightarrow> query" where
  "step ev q = (if enabled ev q then handle ev q else q)"

fun run :: "query \<Rightarrow> event list \<Rightarrow> query" where
  "run q [] = q"
| "run q (ev # evs) = run (step ev q) evs"

subsection \<open>Big-endian values\<close>

text \<open>The value of four bytes read as an unsigned 32-bit integer, most significant byte
  first: the big-endian base-256 accumulation of the specification, against which the
  decoder's two loops are compared.\<close>

definition be32 :: "byte \<Rightarrow> byte \<Rightarrow> byte \<Rightarrow> byte \<Rightarrow> nat" where
  "be32 b0 b1 b2 b3 = unat b0 * 2 ^ 24 + unat b1 * 2 ^ 16 + unat b2 * 2 ^ 8 + unat b3"

subsection \<open>Reachable states\<close>

text \<open>
  What holds of a started query after any events: the \<open>error\<close> listener stays
  registered; the timer is armed, with the module's delay, exactly as long as the callback
  has not been invoked; until then the socket is open, \<open>errorFired\<close> is unset and no
  handler has thrown; and the \<open>message\<close> listener is not registered while the completion
  callback of \<open>send\<close> is outstanding.
\<close>

definition consistent :: "query \<Rightarrow> bool" where
  "consistent q \<longleftrightarrow>
     error_listener q \<and> timeout q \<noteq> NoTimer \<and>
     (\<forall>d. timeout q = Armed d \<longrightarrow> d = ntpReplyTimeout) \<and>
     (callbacks q = [] \<longleftrightarrow> timeout q = Armed ntpReplyTimeout) \<and>
     (callbacks q = [] \<longrightarrow> close_calls q = 0 \<and> \<not> errorFired q \<and> uncaught q = 0) \<and>
     (send_pending q \<longrightarrow> \<not> message_listener q)"

section \<open>Verification\<close>

subsection \<open>The request packet\<close>

lemma length_buf_set [simp]: "length (buf_set buf i v) = length buf"
  by (simp add: buf_set_def)

lemma length_fill_loop [simp]: "length (fill_loop i buf) = length buf"
  by (induction i buf rule: fill_loop.induct) (subst fill_loop.simps, simp)

lemma fill_loop_below: "j < i \<Longrightarrow> fill_loop i buf ! j = buf ! j"
proof (induction i buf rule: fill_loop.induct)
  case (1 i buf)
  show ?case
  proof (cases "i < 48")
    case True
    with 1 have "fill_loop (i + 1) (buf_set buf i 0) ! j = buf_set buf i 0 ! j"
      by simp
    also from \<open>j < i\<close> have "\<dots> = buf ! j"
      by (simp add: buf_set_def)
    finally show ?thesis
      using True by (subst fill_loop.simps) simp
  next
    case False
    then show ?thesis
      by (subst fill_loop.simps) simp
  qed
qed

lemma fill_loop_zero: "i \<le> j \<Longrightarrow> j < 48 \<Longrightarrow> j < length buf \<Longrightarrow> fill_loop i buf ! j = 0"
proof (induction i buf rule: fill_loop.induct)
  case (1 i buf)
  from 1(2,3) have lt: "i < 48" by simp
  show ?case
  proof (cases "i = j")
    case True
    have "fill_loop (i + 1) (buf_set buf i 0) ! j = buf_set buf i 0 ! j"
      using True by (intro fill_loop_below) simp
    also have "\<dots> = 0"
      using True 1(4) by (simp add: buf_set_def)
    finally show ?thesis
      using lt by (subst fill_loop.simps) simp
  next
    case False
    with 1(2) have "i + 1 \<le> j" by simp
    with 1(1) [OF lt] 1(3,4) have "fill_loop (i + 1) (buf_set buf i 0) ! j = 0"
      by simp
    then show ?thesis
      using lt by (subst fill_loop.simps) simp
  qed
qed

lemma length_ntpData: "length (ntpData mem) = 48"
  by (simp add: ntpData_def new_Buffer_def)

lemma ntpData_0: "ntpData mem ! 0 = 0x1B"
  by (simp add: ntpData_def fill_loop_below buf_set_def new_Buffer_def)

lemma ntpData_rest: "1 \<le> i \<Longrightarrow> i < 48 \<Longrightarrow> ntpData mem ! i = 0"
  by (simp add: ntpData_def fill_loop_zero new_Buffer_def)

lemma sent_step [simp]: "sent (step ev q) = sent q"
  by (cases ev)
    (auto simp: step_def on_timeout_def on_error_def on_send_def on_message_def
      client_close_def callback_def clearTimeout_def split: timer.splits option.splits)

lemma sent_run [simp]: "sent (run q evs) = sent q"
  by (induction evs arbitrary: q) simp_all

lemma sockets_step [simp]: "sockets (step ev q) = sockets q"
  by (cases ev)
    (auto simp: step_def on_timeout_def on_error_def on_send_def on_message_def
      client_close_def callback_def clearTimeout_def split: timer.splits option.splits)

lemma sockets_run [simp]: "sockets (run q evs) = sockets q"
  by (induction evs arbitrary: q) simp_all

lemma step_idle [simp]: "step ev idle = idle"
  by (cases ev) (simp_all add: step_def idle_def)

lemma run_idle [simp]: "run idle evs = idle"
  by (induction evs) simp_all

text \<open>
  Claim C3. A query started with a function as callback hands exactly one datagram to
  \<open>send\<close>, whatever the allocator's memory held and whatever happens afterwards: it is
  48 bytes long, its byte 0 is \<open>0x1B\<close> and its bytes 1 to 47 are zero.
\<close>

theorem request_packet_shape:
  assumes "typeof cb = ''function''"
  shows "\<exists>d. sent (run (getNetworkTime mem server port cb) evs) = [d] \<and>
           length (payload d) = 48 \<and> payload d ! 0 = 0x1B \<and>
           (\<forall>i \<in> {1..47}. payload d ! i = 0)"
proof -
  from assms have "cb \<noteq> JSNull" by auto
  with assms show ?thesis
    by (simp add: getNetworkTime_def Let_def length_ntpData ntpData_0 ntpData_rest)
qed

theorem request_packet_shape_witness:
  "typeof JSFunction = ''function'' \<and>
   (\<exists>d. sent (run (getNetworkTime [0xFF, 0x80] (Some ''time.example.org'') (Some 1123) JSFunction)
               [SendDone None, TimerFires]) = [d] \<and>
        length (payload d) = 48 \<and> payload d ! 0 = 0x1B \<and> (\<forall>i \<in> {1..47}. payload d ! i = 0))"
proof -
  have h: "typeof JSFunction = ''function''"
    by simp
  from request_packet_shape [OF h, of "[0xFF, 0x80]" "Some ''time.example.org''" "Some 1123"
      "[SendDone None, TimerFires]"] h
  show ?thesis
    by blast
qed

text \<open>
  Claim C9. When the callback argument is not a function (absent, \<open>null\<close> or any other
  value), \<open>getNetworkTime\<close> returns at once: no socket is created, nothing is sent, no
  timer is armed, and no event can produce an outcome afterwards.
\<close>

theorem no_callback_is_noop:
  assumes "typeof cb \<noteq> ''function''"
  shows "getNetworkTime mem server port cb = idle \<and>
         sockets (run (getNetworkTime mem server port cb) evs) = 0 \<and>
         sent (run (getNetworkTime mem server port cb) evs) = [] \<and>
         timeout (run (getNetworkTime mem server port cb) evs) = NoTimer \<and>
         callbacks (run (getNetworkTime mem server port cb) evs) = []"
  using assms by (simp add: getNetworkTime_def) (simp add: idle_def)

theorem no_callback_is_noop_witness:
  "typeof JSUndefined \<noteq> ''function'' \<and>
   getNetworkTime [] None None JSUndefined = idle \<and>
   sockets (run (getNetworkTime [] None None JSUndefined) [TimerFires, Datagram []]) = 0 \<and>
   sent (run (getNetworkTime [] None None JSUndefined) [TimerFires, Datagram []]) = [] \<and>
   timeout (run (getNetworkTime [] None None JSUndefined) [TimerFires, Datagram []]) = NoTimer \<and>
   callbacks (run (getNetworkTime [] None None JSUndefined) [TimerFires, Datagram []]) = []"
proof -
  have h: "typeof JSUndefined \<noteq> ''function''"
    by simp
  from no_callback_is_noop [OF h, of "[]" None None "[TimerFires, Datagram []]"] h
  show ?thesis
    by blast
qed

subsection \<open>Events\<close>

lemmas handler_defs =
  step_def on_timeout_def on_error_def on_send_def on_message_def
  client_close_def callback_def clearTimeout_def

lemma consistent_start:
  "typeof cb = ''function'' \<Longrightarrow> consistent (getNetworkTime mem server port cb)"
  by (auto simp: consistent_def getNetworkTime_def idle_def Let_def)

lemma consistent_step: "consistent q \<Longrightarrow> consistent (step ev q)"
  by (cases ev)
    (auto simp: consistent_def handler_defs split: timer.splits option.splits)

lemma consistent_run: "consistent q \<Longrightarrow> consistent (run q evs)"
  by (induction evs arbitrary: q) (simp_all add: consistent_step)

lemma closed_step:
  "0 < close_calls q \<Longrightarrow> \<forall>d. Success d \<notin> set (callbacks q) \<Longrightarrow>
     0 < close_calls (step ev q) \<and> (\<forall>d. Success d \<notin> set (callbacks (step ev q)))"
  by (cases ev)
    (auto simp: handler_defs split: timer.splits option.splits)

lemma closed_run:
  "0 < close_calls q \<Longrightarrow> \<forall>d. Success d \<notin> set (callbacks q) \<Longrightarrow>
     \<forall>d. Success d \<notin> set (callbacks (run q evs))"
proof (induction evs arbitrary: q)
  case Nil
  then show ?case by simp
next
  case (Cons ev evs)
  from closed_step [OF Cons.prems, of ev] show ?case
    by (simp add: Cons.IH)
qed

lemma quiet_step:
  "errorFired q \<Longrightarrow> \<not> send_pending q \<Longrightarrow> \<not> message_listener q \<Longrightarrow> \<not> enabled TimerFires q \<Longrightarrow>
     errorFired (step ev q) \<and> \<not> send_pending (step ev q) \<and> \<not> message_listener (step ev q) \<and>
     \<not> enabled TimerFires (step ev q) \<and> callbacks (step ev q) = callbacks q"
  by (cases ev)
    (auto simp: handler_defs split: timer.splits option.splits)

lemma quiet_run:
  "errorFired q \<Longrightarrow> \<not> send_pending q \<Longrightarrow> \<not> message_listener q \<Longrightarrow> \<not> enabled TimerFires q \<Longrightarrow>
     callbacks (run q evs) = callbacks q"
proof (induction evs arbitrary: q)
  case Nil
  then show ?case by simp
next
  case (Cons ev evs)
  from quiet_step [OF Cons.prems, of ev] show ?case
    by (simp add: Cons.IH)
qed

lemma quiet_close_step:
  "errorFired q \<Longrightarrow> \<not> send_pending q \<Longrightarrow> \<not> message_listener q \<Longrightarrow> \<not> enabled TimerFires q \<Longrightarrow>
     close_calls (step ev q) = close_calls q"
  by (cases ev)
    (auto simp: handler_defs split: timer.splits option.splits)

lemma quiet_close_run:
  "errorFired q \<Longrightarrow> \<not> send_pending q \<Longrightarrow> \<not> message_listener q \<Longrightarrow> \<not> enabled TimerFires q \<Longrightarrow>
     close_calls (run q evs) = close_calls q"
proof (induction evs arbitrary: q)
  case Nil
  then show ?case by simp
next
  case (Cons ev evs)
  from quiet_step [OF Cons.prems, of ev] quiet_close_step [OF Cons.prems, of ev] show ?case
    by (simp add: Cons.IH)
qed

text \<open>
  Claim C5. The timer is armed with \<open>ntpReplyTimeout\<close>, which is 10000 ms. Whenever it
  fires, the callback has not been invoked before; the handler closes the socket and
  invokes the callback with the timeout message, and no later event delivers a success:
  a reply that arrives afterwards finds the socket closed.
\<close>

theorem timeout_fails_query:
  assumes "typeof cb = ''function''"
    and "enabled TimerFires (run (getNetworkTime mem server port cb) pre)"
  shows "timeout (getNetworkTime mem server port cb) = Armed ntpReplyTimeout \<and>
         ntpReplyTimeout = 10000 \<and>
         callbacks (run (getNetworkTime mem server port cb) pre) = [] \<and>
         callbacks (step TimerFires (run (getNetworkTime mem server port cb) pre)) =
           [Failure (Str ''Timeout waiting for NTP response.'')] \<and>
         close_calls (step TimerFires (run (getNetworkTime mem server port cb) pre)) = 1 \<and>
         Success d \<notin> set (callbacks
           (run (step TimerFires (run (getNetworkTime mem server port cb) pre)) post))"
proof -
  let ?q = "run (getNetworkTime mem server port cb) pre"
  let ?q' = "step TimerFires ?q"
  have c: "consistent ?q"
    using assms(1) by (intro consistent_run consistent_start)
  from assms(2) c have armed: "timeout ?q = Armed ntpReplyTimeout"
    by (auto simp: consistent_def split: timer.splits)
  with c have none: "callbacks ?q = []" and "close_calls ?q = 0"
    by (auto simp: consistent_def)
  with armed have cb': "callbacks ?q' = [Failure (Str ''Timeout waiting for NTP response.'')]"
    and cl': "close_calls ?q' = 1"
    by (simp_all add: handler_defs)
  from cb' cl' have "\<forall>d. Success d \<notin> set (callbacks (run ?q' post))"
    by (intro closed_run) simp_all
  moreover from assms(1) have "timeout (getNetworkTime mem server port cb) = Armed ntpReplyTimeout"
    by (auto simp: getNetworkTime_def idle_def Let_def)
  ultimately show ?thesis
    using none cb' cl' by (simp add: ntpReplyTimeout_def)
qed

theorem timeout_fails_query_witness:
  "typeof JSFunction = ''function'' \<and>
   enabled TimerFires (run (getNetworkTime [] None None JSFunction) [SendDone None]) \<and>
   timeout (getNetworkTime [] None None JSFunction) = Armed ntpReplyTimeout \<and>
   ntpReplyTimeout = 10000 \<and>
   callbacks (run (getNetworkTime [] None None JSFunction) [SendDone None]) = [] \<and>
   callbacks (step TimerFires (run (getNetworkTime [] None None JSFunction) [SendDone None])) =
     [Failure (Str ''Timeout waiting for NTP response.'')] \<and>
   close_calls (step TimerFires (run (getNetworkTime [] None None JSFunction) [SendDone None])) = 1 \<and>
   Success new_Date_1900 \<notin> set (callbacks
     (run (step TimerFires (run (getNetworkTime [] None None JSFunction) [SendDone None]))
        [Datagram (replicate 48 0)]))"
proof -
  have h1: "typeof JSFunction = ''function''"
    by simp
  have h2: "enabled TimerFires (run (getNetworkTime [] None None JSFunction) [SendDone None])"
    by (simp add: getNetworkTime_def idle_def handler_defs)
  from h1 h2 timeout_fails_query [OF h1 h2, of new_Date_1900 "[Datagram (replicate 48 0)]"]
  show ?thesis
    by blast
qed

text \<open>
  Claim C6, amended. The completion callback of \<open>send\<close> guards on \<open>errorFired\<close>. When
  \<open>send\<close> reports an error before any outcome has been delivered, the query fails with
  that send error: it is the one invocation of the callback, the timer is disarmed, the
  socket is closed exactly once and without an exception, and no later event delivers
  another outcome. When a socket error has been delivered before, the send error is
  dropped: the handler changes nothing, and does not close the socket.
\<close>

theorem send_error_fails_query:
  assumes "typeof cb = ''function''"
    and "send_pending (run (getNetworkTime mem server port cb) pre)"
  shows "(callbacks (run (getNetworkTime mem server port cb) pre) = [] \<longrightarrow>
           callbacks (step (SendDone (Some e)) (run (getNetworkTime mem server port cb) pre)) =
             [Failure e] \<and>
           \<not> enabled TimerFires (step (SendDone (Some e)) (run (getNetworkTime mem server port cb) pre)) \<and>
           close_calls (step (SendDone (Some e)) (run (getNetworkTime mem server port cb) pre)) = 1 \<and>
           uncaught (step (SendDone (Some e)) (run (getNetworkTime mem server port cb) pre)) = 0 \<and>
           callbacks (run (step (SendDone (Some e)) (run (getNetworkTime mem server port cb) pre)) post) =
             [Failure e] \<and>
           close_calls (run (step (SendDone (Some e)) (run (getNetworkTime mem server port cb) pre)) post) = 1) \<and>
         (errorFired (run (getNetworkTime mem server port cb) pre) \<longrightarrow>
           step (SendDone (Some e)) (run (getNetworkTime mem server port cb) pre) =
             (run (getNetworkTime mem server port cb) pre)\<lparr>send_pending := False\<rparr>)"
proof (intro conjI impI)
  let ?q = "run (getNetworkTime mem server port cb) pre"
  let ?q' = "step (SendDone (Some e)) ?q"
  have c: "consistent ?q"
    using assms(1) by (intro consistent_run consistent_start)
  with assms(2) have nl: "\<not> message_listener ?q"
    by (simp add: consistent_def)
  {
    assume "errorFired ?q"
    with assms(2) show "?q' = ?q\<lparr>send_pending := False\<rparr>"
      by (simp add: handler_defs)
  }
  assume none: "callbacks ?q = []"
  with c have q: "close_calls ?q = 0" "\<not> errorFired ?q" "uncaught ?q = 0"
    by (simp_all add: consistent_def)
  with assms(2) nl none show 1: "callbacks ?q' = [Failure e]"
    and 2: "\<not> enabled TimerFires ?q'"
    and 3: "close_calls ?q' = 1"
    and 5: "uncaught ?q' = 0"
    by (auto simp: handler_defs split: timer.splits)
  from q assms(2) nl have 4: "errorFired ?q'" "\<not> send_pending ?q'" "\<not> message_listener ?q'"
    by (auto simp: handler_defs split: timer.splits)
  from 4 2 have "callbacks (run ?q' post) = callbacks ?q'"
    by (intro quiet_run)
  with 1 show "callbacks (run ?q' post) = [Failure e]"
    by simp
  from 4 2 3 show "close_calls (run ?q' post) = 1"
    by (simp add: quiet_close_run)
qed

theorem send_error_fails_query_witness:
  "typeof JSFunction = ''function'' \<and>
   send_pending (run (getNetworkTime [] None None JSFunction) []) \<and>
   callbacks (run (getNetworkTime [] None None JSFunction) []) = [] \<and>
   callbacks (step (SendDone (Some (ErrorObject ''ENOTFOUND'')))
       (run (getNetworkTime [] None None JSFunction) [])) =
     [Failure (ErrorObject ''ENOTFOUND'')] \<and>
   close_calls (step (SendDone (Some (ErrorObject ''ENOTFOUND'')))
       (run (getNetworkTime [] None None JSFunction) [])) = 1 \<and>
   uncaught (step (SendDone (Some (ErrorObject ''ENOTFOUND'')))
       (run (getNetworkTime [] None None JSFunction) [])) = 0 \<and>
   callbacks (run (step (SendDone (Some (ErrorObject ''ENOTFOUND'')))
       (run (getNetworkTime [] None None JSFunction) []))
     [SocketError (ErrorObject ''ENOTFOUND''), TimerFires]) =
     [Failure (ErrorObject ''ENOTFOUND'')]"
proof -
  have h1: "typeof JSFunction = ''function''"
    by simp
  have h2: "send_pending (run (getNetworkTime [] None None JSFunction) [])"
    by (simp add: getNetworkTime_def idle_def)
  have h3: "callbacks (run (getNetworkTime [] None None JSFunction) []) = []"
    by (simp add: getNetworkTime_def idle_def)
  from send_error_fails_query [OF h1 h2, of "ErrorObject ''ENOTFOUND''"
      "[SocketError (ErrorObject ''ENOTFOUND''), TimerFires]"] h1 h2 h3
  show ?thesis
    by blast
qed

text \<open>Claim C6 as stated fails: a send error reported after a socket error is neither
  delivered nor followed by a close.\<close>

theorem send_error_after_socket_error_dropped:
  "enabled (SendDone (Some (ErrorObject ''ENOTFOUND'')))
     (run (getNetworkTime [] None None JSFunction) [SocketError (ErrorObject ''EACCES'')]) \<and>
   callbacks (run (getNetworkTime [] None None JSFunction)
     [SocketError (ErrorObject ''EACCES''), SendDone (Some (ErrorObject ''ENOTFOUND''))]) =
     [Failure (ErrorObject ''EACCES'')] \<and>
   close_calls (run (getNetworkTime [] None None JSFunction)
     [SocketError (ErrorObject ''EACCES''), SendDone (Some (ErrorObject ''ENOTFOUND''))]) = 0"
  by (simp add: getNetworkTime_def idle_def handler_defs)




text \<open>
  Claim C1. The flag \<open>errorFired\<close> is kept "to prevent multiple callbacks", but only the
  \<open>error\<close> listener and the error branch of the completion callback of \<open>send\<close> test and
  set it. After a successful send, a socket error followed by a reply invokes the callback
  twice: the \<open>error\<close> listener leaves the socket open and the \<open>message\<close> listener
  registered. So does a timeout followed by a send error, as the timer's function does not
  set the flag.
\<close>

theorem callback_invoked_twice:
  "callbacks (run (getNetworkTime mem server port JSFunction)
     [SendDone None, SocketError e, Datagram msg]) = [Failure e, Success (date_of msg)] \<and>
   callbacks (run (getNetworkTime mem server port JSFunction)
     [TimerFires, SendDone (Some e)]) =
     [Failure (Str ''Timeout waiting for NTP response.''), Failure e]"
  by (simp add: getNetworkTime_def idle_def handler_defs)

subsection \<open>Rounding\<close>

text \<open>\<open>binary64\<close> leaves every value with a significand of at most 53 bits as it is, in
  particular the integers up to \<open>2^53\<close>; it is idempotent and keeps the bounds that are
  powers of two.\<close>

lemma bitlen_pos: "0 < n \<Longrightarrow> 1 \<le> bitlen n"
  by (simp add: bitlen_alt_def)

lemma ilog2_ge_1:
  assumes "1 \<le> x"
  shows "2 powi (ilog2 x) \<le> x" and "x < 2 powi (ilog2 x + 1)"
proof -
  let ?n = "\<lfloor>x\<rfloor>"
  from assms have n: "0 < ?n" by simp
  from bitlen_pos [OF n] have b: "1 \<le> bitlen ?n" .
  from bitlen_bounds [OF n]
  have lo: "2 ^ nat (bitlen ?n - 1) \<le> ?n" and hi: "?n < 2 ^ nat (bitlen ?n)"
    by simp_all
  from assms have e: "ilog2 x = bitlen ?n - 1"
    by (simp add: ilog2_def)
  have "(2::rat) powi (bitlen ?n - 1) = of_int (2 ^ nat (bitlen ?n - 1))"
    using b by (simp add: power_int_def)
  also have "\<dots> \<le> of_int ?n"
    using lo by (simp only: of_int_le_iff)
  also have "\<dots> \<le> x"
    by simp
  finally show "2 powi (ilog2 x) \<le> x"
    by (simp add: e)
  from hi have "?n + 1 \<le> 2 ^ nat (bitlen ?n)"
    by simp
  then have "(of_int (?n + 1) :: rat) \<le> of_int (2 ^ nat (bitlen ?n))"
    by (simp only: of_int_le_iff)
  moreover have "x < of_int (?n + 1)"
    by simp linarith
  moreover have "(2::rat) powi (bitlen ?n) = of_int (2 ^ nat (bitlen ?n))"
    using b by (simp add: power_int_def)
  ultimately show "x < 2 powi (ilog2 x + 1)"
    by (simp add: e)
qed

lemma ilog2_lt_1:
  assumes "0 < x" "x < 1"
  shows "2 powi (ilog2 x) \<le> x" and "x < 2 powi (ilog2 x + 1)"
proof -
  let ?m = "\<lceil>1 / x\<rceil> - 1"
  from assms have y: "1 < 1 / x" by simp
  then have m: "0 < ?m" by linarith
  from bitlen_pos [OF m] have b: "1 \<le> bitlen ?m" .
  from bitlen_bounds [OF m]
  have lo: "2 ^ nat (bitlen ?m - 1) \<le> ?m" and hi: "?m < 2 ^ nat (bitlen ?m)"
    by simp_all
  from assms have e: "ilog2 x = - bitlen ?m"
    by (simp add: ilog2_def)
  have p: "(2::rat) powi (- bitlen ?m) = 1 / 2 ^ nat (bitlen ?m)"
    using b power_int_minus_divide [of "2::rat" "bitlen ?m"] by (simp add: power_int_def)
  have p': "(2::rat) powi (- bitlen ?m + 1) = 1 / 2 ^ nat (bitlen ?m - 1)"
    using b power_int_minus_divide [of "2::rat" "bitlen ?m - 1"] by (simp add: power_int_def)
  from hi have "\<lceil>1 / x\<rceil> \<le> 2 ^ nat (bitlen ?m)"
    by simp
  then have "(of_int \<lceil>1 / x\<rceil> :: rat) \<le> of_int (2 ^ nat (bitlen ?m))"
    by (simp only: of_int_le_iff)
  then have "(of_int \<lceil>1 / x\<rceil> :: rat) \<le> 2 ^ nat (bitlen ?m)"
    by simp
  with le_of_int_ceiling [of "1 / x"] have "1 / x \<le> 2 ^ nat (bitlen ?m)"
    by (rule order_trans)
  with assms(1) have "1 / 2 ^ nat (bitlen ?m) \<le> x"
    by (simp add: field_simps)
  then show "2 powi (ilog2 x) \<le> x"
    by (simp only: e p)
  have "(of_int (2 ^ nat (bitlen ?m - 1)) :: rat) \<le> of_int ?m"
    using lo by (simp only: of_int_le_iff)
  then have "(2 ^ nat (bitlen ?m - 1) :: rat) \<le> of_int ?m"
    by simp
  moreover have "(of_int ?m :: rat) < 1 / x"
    using ceiling_correct [of "1 / x"] by simp
  ultimately have "2 ^ nat (bitlen ?m - 1) < 1 / x"
    by (rule le_less_trans)
  with assms(1) have "x < 1 / 2 ^ nat (bitlen ?m - 1)"
    by (simp add: field_simps)
  then show "x < 2 powi (ilog2 x + 1)"
    by (simp only: e p')
qed

lemma ilog2_bounds:
  assumes "0 < x"
  shows "2 powi (ilog2 x) \<le> x" and "x < 2 powi (ilog2 x + 1)"
  using assms ilog2_ge_1 [of x] ilog2_lt_1 [of x] by (cases "1 \<le> x"; simp)+

lemma round_half_even_of_int [simp]: "round_half_even (of_int z) = z"
  by (simp add: round_half_even_def)

lemma round_half_even_bounds: "\<lfloor>q\<rfloor> \<le> round_half_even q" "round_half_even q \<le> \<lfloor>q\<rfloor> + 1"
  by (simp_all add: round_half_even_def Let_def)


lemma binary64_exact:
  assumes "\<bar>m\<bar> < 2 ^ 53"
  shows "binary64 (of_int m * 2 powi k) = of_int m * 2 powi k"
proof (cases "m = 0")
  case True
  then show ?thesis
    by (simp add: binary64_def)
next
  case False
  define x :: rat where "x = of_int m * 2 powi k"
  define e where "e = ilog2 \<bar>x\<bar>"
  define j where "j = k - (e - 52)"
  have ax: "\<bar>x\<bar> = of_int \<bar>m\<bar> * 2 powi k"
    by (simp add: x_def abs_mult)
  from False have pos: "0 < \<bar>x\<bar>"
    by (simp add: x_def)
  from ilog2_bounds(1) [OF pos] have "2 powi e \<le> \<bar>x\<bar>"
    by (simp add: e_def)
  also have "\<bar>x\<bar> < 2 ^ 53 * 2 powi k"
  proof -
    from assms have "(of_int \<bar>m\<bar> :: rat) < of_int (2 ^ 53)"
      by (simp only: of_int_less_iff)
    then show ?thesis
      by (simp add: ax)
  qed
  also have "\<dots> = 2 powi (53 + k)"
    by (simp add: power_int_add)
  finally have "(2::rat) powi e < 2 powi (53 + k)" .
  then have "e < 53 + k"
    using power_int_increasing [of "53 + k" e "2::rat"] by (cases "e < 53 + k") simp_all
  then have j: "0 \<le> j"
    by (simp add: j_def)
  have "x / 2 powi (e - 52) = of_int m * 2 powi j"
    by (simp add: x_def j_def power_int_diff)
  also have "\<dots> = of_int (m * 2 ^ nat j)"
    using j by (simp add: power_int_def)
  finally have q: "x / 2 powi (e - 52) = of_int (m * 2 ^ nat j)" .
  have "binary64 x = of_int (m * 2 ^ nat j) * 2 powi (e - 52)"
    using pos by (simp add: binary64_def Let_def e_def [symmetric] q del: of_int_mult of_int_power)
  also have "\<dots> = of_int m * (2 powi j * 2 powi (e - 52))"
    using j by (simp add: power_int_def)
  also have "2 powi j * 2 powi (e - 52) = (2::rat) powi k"
    by (simp add: j_def power_int_add [symmetric])
  finally show ?thesis
    by (simp add: x_def)
qed

lemma binary64_exact_53:
  assumes "\<bar>m\<bar> \<le> 2 ^ 53"
  shows "binary64 (of_int m * 2 powi k) = of_int m * 2 powi k"
proof (cases "\<bar>m\<bar> < 2 ^ 53")
  case True
  then show ?thesis
    by (rule binary64_exact)
next
  case False
  with assms have "m = 2 ^ 53 \<or> m = - (2 ^ 53)"
    by (simp add: abs_if split: if_splits)
  then obtain h :: int where h: "m = h * 2" "\<bar>h\<bar> < 2 ^ 53"
    by (elim disjE) (rule that [of "2 ^ 52"], simp, simp, rule that [of "- (2 ^ 52)"], simp, simp)
  have "of_int m * (2::rat) powi k = of_int h * 2 powi (k + 1)"
    by (simp add: h(1) power_int_add)
  with binary64_exact [OF h(2), of "k + 1"] show ?thesis
    by simp
qed

lemma binary64_of_int: "\<bar>n\<bar> \<le> 2 ^ 53 \<Longrightarrow> binary64 (of_int n) = of_int n"
  using binary64_exact_53 [of n 0] by simp

lemma binary64_of_nat: "n \<le> 2 ^ 53 \<Longrightarrow> binary64 (of_nat n) = of_nat n"
  using binary64_of_int [of "int n"] by simp


lemma significand_bounds:
  assumes "x \<noteq> 0"
  shows "\<bar>x / 2 powi (ilog2 \<bar>x\<bar> - 52)\<bar> < 2 ^ 53"
proof -
  define e where "e = ilog2 \<bar>x\<bar>"
  from assms have pos: "0 < \<bar>x\<bar>" by simp
  have "\<bar>x / 2 powi (e - 52)\<bar> = \<bar>x\<bar> / 2 powi (e - 52)"
    by (simp add: abs_divide power_int_abs)
  also have "\<dots> < 2 powi (e + 1) / 2 powi (e - 52)"
    using ilog2_bounds(2) [OF pos] by (simp add: e_def divide_strict_right_mono)
  also have "\<dots> = 2 powi ((e + 1) - (e - 52))"
    by (simp only: power_int_diff [of "2::rat", symmetric, simplified])
  also have "\<dots> = 2 ^ 53"
    by simp
  finally show ?thesis
    by (simp add: e_def)
qed

lemma round_half_even_abs:
  assumes "\<bar>q\<bar> < 2 ^ 53"
  shows "\<bar>round_half_even q\<bar> \<le> 2 ^ 53"
proof -
  from assms have up: "q < of_int (2 ^ 53)" and low: "of_int (- (2 ^ 53)) \<le> q"
    by (simp_all add: abs_less_iff)
  from up have "\<lfloor>q\<rfloor> < 2 ^ 53"
    by (simp only: floor_less_iff)
  moreover from low have "- (2 ^ 53) \<le> \<lfloor>q\<rfloor>"
    by (simp only: le_floor_iff)
  ultimately have "\<lfloor>q\<rfloor> < 2 ^ 53" and "- (2 ^ 53) \<le> \<lfloor>q\<rfloor>"
    by blast+
  with round_half_even_bounds [of q] show ?thesis
    by linarith
qed

lemma binary64_idem [simp]: "binary64 (binary64 x) = binary64 x"
proof (cases "x = 0")
  case True
  then show ?thesis
    by (simp add: binary64_def)
next
  case False
  then have "binary64 x =
      of_int (round_half_even (x / 2 powi (ilog2 \<bar>x\<bar> - 52))) * 2 powi (ilog2 \<bar>x\<bar> - 52)"
    by (simp add: binary64_def Let_def)
  with binary64_exact_53 [OF round_half_even_abs [OF significand_bounds [OF False]],
      of "ilog2 \<bar>x\<bar> - 52"]
  show ?thesis
    by simp
qed

lemma binary64_nonneg: "0 \<le> x \<Longrightarrow> 0 \<le> binary64 x"
proof -
  assume x: "0 \<le> x"
  then have "0 \<le> \<lfloor>x / 2 powi (ilog2 \<bar>x\<bar> - 52)\<rfloor>"
    by simp
  with round_half_even_bounds(1) [of "x / 2 powi (ilog2 \<bar>x\<bar> - 52)"]
  have "0 \<le> round_half_even (x / 2 powi (ilog2 \<bar>x\<bar> - 52))"
    by linarith
  then show ?thesis
    by (simp add: binary64_def Let_def)
qed

lemma binary64_le_power:
  assumes "0 \<le> x" "x < 2 ^ n"
  shows "binary64 x \<le> 2 ^ n"
proof (cases "x = 0")
  case True
  then show ?thesis
    by (simp add: binary64_def)
next
  case False
  define e where "e = ilog2 \<bar>x\<bar>"
  define q where "q = x / 2 powi (e - 52)"
  from False assms(1) have pos: "0 < \<bar>x\<bar>" and ax: "\<bar>x\<bar> = x"
    by simp_all
  from ilog2_bounds(1) [OF pos] assms(2) have "(2::rat) powi e < 2 powi (int n)"
    by (simp add: e_def ax)
  then have "e < int n"
    using power_int_increasing [of "int n" e "2::rat"] by (cases "e < int n") simp_all
  then have en: "e + 1 \<le> int n"
    by simp
  from significand_bounds [OF False] have "\<bar>round_half_even q\<bar> \<le> 2 ^ 53"
    unfolding q_def e_def by (rule round_half_even_abs)
  then have "round_half_even q \<le> 2 ^ 53"
    by simp
  then have "(of_int (round_half_even q) :: rat) \<le> of_int (2 ^ 53)"
    by (simp only: of_int_le_iff)
  then have "of_int (round_half_even q) * 2 powi (e - 52) \<le> (2 ^ 53 :: rat) * 2 powi (e - 52)"
    by (intro mult_right_mono) simp_all
  also have "(2 ^ 53 :: rat) * 2 powi (e - 52) = 2 powi (e + 1)"
    using power_int_add [of "2::rat" 53 "e - 52"] by (simp add: add.commute)
  also have "\<dots> \<le> 2 powi (int n)"
    using en by (intro power_int_increasing) simp_all
  finally have "of_int (round_half_even q) * 2 powi (e - 52) \<le> (2::rat) ^ n"
    by simp
  with False show ?thesis
    by (simp add: binary64_def Let_def q_def e_def)
qed

subsection \<open>The decoder\<close>

lemma binary64_0 [simp]: "binary64 0 = 0"
  by (simp add: binary64_def)

lemma binary64_numeral: "numeral k \<le> (2 ^ 53 :: int) \<Longrightarrow> binary64 (numeral k) = numeral k"
  using binary64_of_int [of "numeral k"] by simp

lemma binary64_neg_numeral:
  "numeral k \<le> (2 ^ 53 :: int) \<Longrightarrow> binary64 (- numeral k) = - numeral k"
  using binary64_of_int [of "- numeral k"] by simp

lemma trunc_of_int [simp]: "trunc (of_int n) = n"
  by (simp add: trunc_def)

lemma js_add_NaN [simp]: "js_add x NaN = NaN"
  by (cases x) simp_all

lemma TimeFromYear_1900: "TimeFromYear 1900 = - 2208988800000"
  by (simp add: TimeFromYear_def DayFromYear_def msPerDay_def)

lemma getUTCMilliseconds_1900: "getUTCMilliseconds new_Date_1900 = Num 0"
  by (simp add: new_Date_1900_def TimeFromYear_1900 msPerSecond_def)

lemma setUTCMilliseconds_1900:
  assumes "0 \<le> y" "y \<le> 2 ^ 43"
  shows "setUTCMilliseconds new_Date_1900 (Num y) = Date (Num (of_int (TimeFromYear 1900 + \<lfloor>y\<rfloor>)))"
proof -
  define t where "t = \<lfloor>y\<rfloor>"
  from assms have t: "0 \<le> t" "t \<le> 2 ^ 43"
    by (simp_all add: t_def floor_le_iff le_floor_iff) 
  have time: "MakeTime (Num 0) (Num 0) (Num 0) (Num y) = Num (of_int t)"
  proof -
    from t have "binary64 (of_int t) = of_int t"
      by (intro binary64_of_int) simp
    with assms(1) show ?thesis
      by (simp add: trunc_def t_def)
  qed
  have day: "js_mul (Num (- 25567)) (Num (of_int msPerDay)) = Num (of_int (- 2208988800000))"
    by (simp add: msPerDay_def binary64_neg_numeral)
  have "binary64 (of_int (- 2208988800000 + t)) = of_int (- 2208988800000 + t)"
    using t by (intro binary64_of_int) simp
  then have date: "MakeDate (Num (- 25567)) (Num (of_int t)) = Num (of_int (- 2208988800000 + t))"
    unfolding MakeDate_def day by simp
  have clip: "TimeClip (Num (of_int (- 2208988800000 + t))) = Num (of_int (- 2208988800000 + t))"
  proof -
    from t have "\<bar>- 2208988800000 + t\<bar> \<le> 8640000000000000"
      by simp
    then have "\<bar>of_int (- 2208988800000 + t) :: rat\<bar> \<le> of_int 8640000000000000"
      by (simp only: of_int_abs [symmetric] of_int_le_iff)
    then have "\<not> 8640000000000000 < \<bar>of_int (- 2208988800000 + t) :: rat\<bar>"
      by simp
    then show ?thesis
      by (simp only: TimeClip.simps if_False ToIntegerOrInfinity.simps trunc_of_int)
  qed
  have parts: "Day (Num (- 2208988800000)) = Num (- 25567)"
    "HourFromTime (Num (- 2208988800000)) = Num 0"
    "MinFromTime (Num (- 2208988800000)) = Num 0"
    "SecFromTime (Num (- 2208988800000)) = Num 0"
    by (simp_all add: msPerDay_def msPerHour_def msPerMinute_def msPerSecond_def)
  show ?thesis
    by (simp only: new_Date_1900_def TimeFromYear_1900 setUTCMilliseconds.simps of_int_minus
        of_int_numeral parts time date clip t_def [symmetric])
qed


lemma unat_byte: "unat (b :: byte) < 256"
  using unsigned_less [of b, where ?'a = nat] by simp

lemma be32_less: "be32 b0 b1 b2 b3 < 2 ^ 32"
  using unat_byte [of b0] unat_byte [of b1] unat_byte [of b2] unat_byte [of b3]
  by (simp add: be32_def)

lemma accumulate:
  assumes "a < 2 ^ 32" "b < 256"
  shows "js_add (js_mul (Num 256) (Num (of_nat a))) (Num (of_nat b)) = Num (of_nat (256 * a + b))"
proof -
  from assms have "256 * a \<le> 2 ^ 53" and "256 * a + b \<le> 2 ^ 53"
    by simp_all
  then have "binary64 (of_nat (256 * a)) = of_nat (256 * a)"
    and "binary64 (of_nat (256 * a + b)) = of_nat (256 * a + b)"
    by (simp_all only: binary64_of_nat)
  then show ?thesis
    by simp
qed

lemma ToNumber_buf_get:
  "ToNumber (buf_get msg i) = (if i < length msg then Num (of_nat (unat (msg ! i))) else NaN)"
  by (simp add: buf_get_def)

lemma seconds_loop_unrolled:
  "seconds_loop msg 0 a =
     js_add (js_mul (Num 256)
       (js_add (js_mul (Num 256)
         (js_add (js_mul (Num 256)
           (js_add (js_mul (Num 256) a) (ToNumber (buf_get msg 40))))
           (ToNumber (buf_get msg 41))))
         (ToNumber (buf_get msg 42))))
       (ToNumber (buf_get msg 43))"
  by (simp add: seconds_loop.simps offsetTransmitTime_def)

lemma fraction_loop_unrolled:
  "fraction_loop msg 4 a =
     js_add (js_mul (Num 256)
       (js_add (js_mul (Num 256)
         (js_add (js_mul (Num 256)
           (js_add (js_mul (Num 256) a) (ToNumber (buf_get msg 44))))
           (ToNumber (buf_get msg 45))))
         (ToNumber (buf_get msg 46))))
       (ToNumber (buf_get msg 47))"
  by (simp add: fraction_loop.simps offsetTransmitTime_def)

lemma four_bytes:
  fixes b0 b1 b2 b3 :: byte
  shows "js_add (js_mul (Num 256)
       (js_add (js_mul (Num 256)
         (js_add (js_mul (Num 256)
           (js_add (js_mul (Num 256) (Num 0)) (Num (of_nat (unat b0)))))
           (Num (of_nat (unat b1)))))
         (Num (of_nat (unat b2)))))
       (Num (of_nat (unat b3))) = Num (of_nat (be32 b0 b1 b2 b3))"
proof -
  note b = unat_byte [of b0] unat_byte [of b1] unat_byte [of b2] unat_byte [of b3]
  have 0: "js_add (js_mul (Num 256) (Num 0)) (Num (of_nat (unat b0))) = Num (of_nat (256 * 0 + unat b0))"
    using accumulate [of 0 "unat b0"] b by simp
  have 1: "js_add (js_mul (Num 256) (Num (of_nat (256 * 0 + unat b0)))) (Num (of_nat (unat b1)))
      = Num (of_nat (256 * (256 * 0 + unat b0) + unat b1))"
    using b by (intro accumulate) simp_all
  have 2: "js_add (js_mul (Num 256) (Num (of_nat (256 * (256 * 0 + unat b0) + unat b1))))
        (Num (of_nat (unat b2)))
      = Num (of_nat (256 * (256 * (256 * 0 + unat b0) + unat b1) + unat b2))"
    using b by (intro accumulate) simp_all
  have 3: "js_add (js_mul (Num 256)
        (Num (of_nat (256 * (256 * (256 * 0 + unat b0) + unat b1) + unat b2))))
        (Num (of_nat (unat b3)))
      = Num (of_nat (256 * (256 * (256 * (256 * 0 + unat b0) + unat b1) + unat b2) + unat b3))"
    using b by (intro accumulate) simp_all
  have "256 * (256 * (256 * (256 * 0 + unat b0) + unat b1) + unat b2) + unat b3 = be32 b0 b1 b2 b3"
    by (simp add: be32_def)
  with 0 1 2 3 show ?thesis
    by (simp only:)
qed

lemma intpart_of_reply:
  assumes "44 \<le> length msg"
  shows "intpart_of msg = Num (of_nat (be32 (msg ! 40) (msg ! 41) (msg ! 42) (msg ! 43)))"
proof -
  from assms have "ToNumber (buf_get msg 40) = Num (of_nat (unat (msg ! 40)))"
    and "ToNumber (buf_get msg 41) = Num (of_nat (unat (msg ! 41)))"
    and "ToNumber (buf_get msg 42) = Num (of_nat (unat (msg ! 42)))"
    and "ToNumber (buf_get msg 43) = Num (of_nat (unat (msg ! 43)))"
    by (simp_all add: ToNumber_buf_get)
  then show ?thesis
    unfolding intpart_of_def seconds_loop_unrolled by (simp only: four_bytes)
qed

lemma fractpart_of_reply:
  assumes "48 \<le> length msg"
  shows "fractpart_of msg = Num (of_nat (be32 (msg ! 44) (msg ! 45) (msg ! 46) (msg ! 47)))"
proof -
  from assms have "ToNumber (buf_get msg 44) = Num (of_nat (unat (msg ! 44)))"
    and "ToNumber (buf_get msg 45) = Num (of_nat (unat (msg ! 45)))"
    and "ToNumber (buf_get msg 46) = Num (of_nat (unat (msg ! 46)))"
    and "ToNumber (buf_get msg 47) = Num (of_nat (unat (msg ! 47)))"
    by (simp_all add: ToNumber_buf_get)
  then show ?thesis
    unfolding fractpart_of_def fraction_loop_unrolled by (simp only: four_bytes)
qed

lemma intpart_of_short: "length msg < 44 \<Longrightarrow> intpart_of msg = NaN"
  by (simp add: intpart_of_def seconds_loop_unrolled ToNumber_buf_get)

lemma fractpart_of_short: "length msg < 48 \<Longrightarrow> fractpart_of msg = NaN"
  by (simp add: fractpart_of_def fraction_loop_unrolled ToNumber_buf_get)


lemma times_1000:
  assumes "n < 2 ^ 32"
  shows "js_mul (Num (of_nat n)) (Num 1000) = Num (of_nat (n * 1000))"
proof -
  from assms have "n * 1000 \<le> 2 ^ 53"
    by simp
  then have "binary64 (of_nat (n * 1000)) = of_nat (n * 1000)"
    by (rule binary64_of_nat)
  then show ?thesis
    by simp
qed

lemma over_2_32:
  assumes "n < 2 ^ 42"
  shows "js_div (Num (of_nat n)) (Num 4294967296) = Num (of_nat n / 2 ^ 32)"
proof -
  from assms have "\<bar>int n\<bar> < 2 ^ 53"
    by simp
  from binary64_exact [OF this, of "- 32"]
  have "binary64 (of_nat n / 2 ^ 32) = of_nat n / 2 ^ 32"
    by (simp add: power_int_minus_divide)
  then show ?thesis
    by simp
qed

lemma milliseconds_of_reply:
  assumes "48 \<le> length msg"
  shows "milliseconds_of msg =
     Num (binary64 (of_nat (be32 (msg ! 40) (msg ! 41) (msg ! 42) (msg ! 43)) * 1000 +
                    of_nat (be32 (msg ! 44) (msg ! 45) (msg ! 46) (msg ! 47)) * 1000 / 2 ^ 32))"
proof -
  define I where "I = be32 (msg ! 40) (msg ! 41) (msg ! 42) (msg ! 43)"
  define F where "F = be32 (msg ! 44) (msg ! 45) (msg ! 46) (msg ! 47)"
  have I: "I < 2 ^ 32" and F: "F < 2 ^ 32"
    unfolding I_def F_def by (rule be32_less)+
  from F have F': "F * 1000 < 2 ^ 42"
    by simp
  from assms have "intpart_of msg = Num (of_nat I)" and "fractpart_of msg = Num (of_nat F)"
    by (simp_all add: I_def F_def intpart_of_reply fractpart_of_reply)
  then have "milliseconds_of msg =
      js_add (Num (of_nat (I * 1000))) (Num (of_nat (F * 1000) / 2 ^ 32))"
    by (simp only: milliseconds_of_def times_1000 [OF I] times_1000 [OF F] over_2_32 [OF F'])
  then show ?thesis
    by (simp add: I_def F_def)
qed

lemma reply_value_bounds:
  fixes I F :: nat
  assumes "I < 2 ^ 32" "F < 2 ^ 32"
  shows "0 \<le> (of_nat I * 1000 + of_nat F * 1000 / 2 ^ 32 :: rat)"
    and "(of_nat I * 1000 + of_nat F * 1000 / 2 ^ 32 :: rat) < 2 ^ 43"
proof -
  show "0 \<le> (of_nat I * 1000 + of_nat F * 1000 / 2 ^ 32 :: rat)"
    by simp
  from assms have "(of_nat I :: rat) < of_nat (2 ^ 32)" and "(of_nat F :: rat) < of_nat (2 ^ 32)"
    by (simp_all only: of_nat_less_iff)
  then have "(of_nat I :: rat) < 2 ^ 32" and "(of_nat F :: rat) < 2 ^ 32"
    by simp_all
  then show "(of_nat I * 1000 + of_nat F * 1000 / 2 ^ 32 :: rat) < 2 ^ 43"
    by (simp add: field_simps)
qed

lemma date_of_reply:
  assumes "48 \<le> length msg"
  shows "date_of msg =
     Date (Num (of_int (TimeFromYear 1900 +
       \<lfloor>binary64 (of_nat (be32 (msg ! 40) (msg ! 41) (msg ! 42) (msg ! 43)) * 1000 +
                 of_nat (be32 (msg ! 44) (msg ! 45) (msg ! 46) (msg ! 47)) * 1000 / 2 ^ 32)\<rfloor>)))"
proof -
  define s :: rat where "s = of_nat (be32 (msg ! 40) (msg ! 41) (msg ! 42) (msg ! 43)) * 1000 +
    of_nat (be32 (msg ! 44) (msg ! 45) (msg ! 46) (msg ! 47)) * 1000 / 2 ^ 32"
  from reply_value_bounds [OF be32_less be32_less]
  have s: "0 \<le> s" "s < 2 ^ 43"
    unfolding s_def by blast+
  from s(1) have b1: "0 \<le> binary64 s"
    by (rule binary64_nonneg)
  from s have b2: "binary64 s \<le> 2 ^ 43"
    by (rule binary64_le_power)
  note b = b1 b2
  from assms have "milliseconds_of msg = Num (binary64 s)"
    by (simp only: milliseconds_of_reply s_def)
  then have "date_of msg = setUTCMilliseconds new_Date_1900 (Num (binary64 s))"
    by (simp add: date_of_def getUTCMilliseconds_1900)
  with setUTCMilliseconds_1900 [OF b] show ?thesis
    by (simp only: s_def)
qed

lemma date_of_short: "length msg < 48 \<Longrightarrow> date_of msg = Date NaN"
proof -
  assume "length msg < 48"
  then have "milliseconds_of msg = NaN"
    by (simp add: milliseconds_of_def fractpart_of_short)
  then show ?thesis
    by (simp add: date_of_def new_Date_1900_def MakeDate_def)
qed

lemma reply_delivered:
  "enabled (Datagram msg) q \<Longrightarrow>
     callbacks (step (Datagram msg) q) = callbacks q @ [Success (date_of msg)]"
  by (simp add: handler_defs split: timer.splits)

lemma listening_after_send:
  "enabled (Datagram msg) (run (getNetworkTime mem server port JSFunction) [SendDone None])"
  by (simp add: getNetworkTime_def idle_def handler_defs)

text \<open>
  Claim C2, amended. For a reply of at least 48 bytes, \<open>intpart\<close> is the big-endian value
  of bytes 40 to 43 and \<open>fractpart\<close> that of bytes 44 to 47; \<open>milliseconds\<close> is
  \<open>intpart * 1000 + fractpart * 1000 / 2^32\<close> in double precision, where the products and
  the quotient are exact and the sum is rounded to the nearest double; and the date
  handed to the callback lies the integer part of \<open>milliseconds\<close> after the first instant
  of 1900: a \<open>Date\<close> holds whole milliseconds.
\<close>

theorem reply_decoded:
  assumes "48 \<le> length msg" and "enabled (Datagram msg) q"
  shows "intpart_of msg = Num (of_nat (be32 (msg ! 40) (msg ! 41) (msg ! 42) (msg ! 43))) \<and>
    fractpart_of msg = Num (of_nat (be32 (msg ! 44) (msg ! 45) (msg ! 46) (msg ! 47))) \<and>
    milliseconds_of msg =
      Num (binary64 (of_nat (be32 (msg ! 40) (msg ! 41) (msg ! 42) (msg ! 43)) * 1000 +
                     of_nat (be32 (msg ! 44) (msg ! 45) (msg ! 46) (msg ! 47)) * 1000 / 2 ^ 32)) \<and>
    callbacks (step (Datagram msg) q) = callbacks q @
      [Success (Date (Num (of_int (TimeFromYear 1900 +
         \<lfloor>binary64 (of_nat (be32 (msg ! 40) (msg ! 41) (msg ! 42) (msg ! 43)) * 1000 +
                   of_nat (be32 (msg ! 44) (msg ! 45) (msg ! 46) (msg ! 47)) * 1000 / 2 ^ 32)\<rfloor>))))]"
  using assms
  by (simp only: intpart_of_reply fractpart_of_reply milliseconds_of_reply date_of_reply [symmetric]
      reply_delivered)

theorem reply_decoded_witness:
  "48 \<le> length (replicate 40 0 @ [0xE8, 0xD6, 0x4F, 0, 0x40, 0, 0, 0 :: byte]) \<and>
   enabled (Datagram (replicate 40 0 @ [0xE8, 0xD6, 0x4F, 0, 0x40, 0, 0, 0]))
     (run (getNetworkTime [] None None JSFunction) [SendDone None]) \<and>
   intpart_of (replicate 40 0 @ [0xE8, 0xD6, 0x4F, 0, 0x40, 0, 0, 0]) = Num 3906359040 \<and>
   fractpart_of (replicate 40 0 @ [0xE8, 0xD6, 0x4F, 0, 0x40, 0, 0, 0]) = Num 1073741824 \<and>
   milliseconds_of (replicate 40 0 @ [0xE8, 0xD6, 0x4F, 0, 0x40, 0, 0, 0]) = Num 3906359040250 \<and>
   callbacks (step (Datagram (replicate 40 0 @ [0xE8, 0xD6, 0x4F, 0, 0x40, 0, 0, 0]))
     (run (getNetworkTime [] None None JSFunction) [SendDone None])) =
     [Success (Date (Num 1697370240250))]"
proof -
  let ?msg = "replicate 40 0 @ [0xE8, 0xD6, 0x4F, 0, 0x40, 0, 0, 0 :: byte]"
  let ?q = "run (getNetworkTime [] None None JSFunction) [SendDone None]"
  have h1: "48 \<le> length ?msg"
    by simp
  have h2: "enabled (Datagram ?msg) ?q"
    by (rule listening_after_send)
  have I: "(of_nat (be32 (?msg ! 40) (?msg ! 41) (?msg ! 42) (?msg ! 43)) :: rat) = 3906359040"
    and F: "(of_nat (be32 (?msg ! 44) (?msg ! 45) (?msg ! 46) (?msg ! 47)) :: rat) = 1073741824"
    by (simp_all add: nth_append be32_def)
  have ms: "binary64 (3906359040 * 1000 + 1073741824 * 1000 / 2 ^ 32) = 3906359040250"
    by (simp add: binary64_numeral)
  have d: "(of_int (TimeFromYear 1900 + \<lfloor>3906359040250 :: rat\<rfloor>) :: rat) = 1697370240250"
    by (simp add: TimeFromYear_1900)
  have c: "callbacks ?q = []"
    by (simp add: getNetworkTime_def idle_def handler_defs)
  from reply_decoded [OF h1 h2] h1 h2 show ?thesis
    by (simp only: I F ms d c append_Nil simp_thms)
qed

lemma binary64_small_fraction: "binary64 (125 / 536870912) = 125 / 536870912"
  using binary64_exact [of 125 "- 29"] by (simp add: power_int_minus_divide)

lemma floor_small_fraction: "\<lfloor>125 / 536870912 :: rat\<rfloor> = 0"
  by (simp add: floor_eq_iff)

text \<open>
  Claim C2 as stated fails: with a fraction of \<open>1 / 2^32\<close> s the formula gives
  \<open>1000 / 2^32\<close> ms, and the date handed to the callback is the epoch itself.
\<close>

theorem fraction_truncated:
  "fractpart_of (replicate 47 0 @ [1]) = Num 1 \<and>
   milliseconds_of (replicate 47 0 @ [1]) = Num (0 * 1000 + 1 * 1000 / 2 ^ 32) \<and>
   callbacks (run (getNetworkTime [] None None JSFunction)
     [SendDone None, Datagram (replicate 47 0 @ [1])]) =
     [Success (Date (Num (of_int (TimeFromYear 1900) + 0)))] \<and>
   (0 * 1000 + 1 * 1000 / 2 ^ 32 :: rat) \<noteq> 0"
proof -
  let ?msg = "replicate 47 0 @ [1 :: byte]"
  let ?q = "run (getNetworkTime [] None None JSFunction) [SendDone None]"
  have len: "48 \<le> length ?msg"
    by simp
  have I: "be32 (?msg ! 40) (?msg ! 41) (?msg ! 42) (?msg ! 43) = 0"
    and F: "be32 (?msg ! 44) (?msg ! 45) (?msg ! 46) (?msg ! 47) = 1"
    by (simp_all add: nth_append be32_def)
  have f: "fractpart_of ?msg = Num 1"
    using fractpart_of_reply [OF len] by (simp only: F of_nat_1)
  have m: "milliseconds_of ?msg = Num (1000 / 2 ^ 32)"
    using milliseconds_of_reply [OF len] by (simp only: I F) (simp add: binary64_small_fraction)
  have d: "date_of ?msg = Date (Num (of_int (TimeFromYear 1900)))"
    using date_of_reply [OF len]
    by (simp only: I F) (simp add: binary64_small_fraction floor_small_fraction)
  have "callbacks (step (Datagram ?msg) ?q) = callbacks ?q @ [Success (date_of ?msg)]"
    by (intro reply_delivered listening_after_send)
  moreover have "callbacks ?q = []"
    by (simp add: getNetworkTime_def idle_def handler_defs)
  ultimately have "callbacks (run (getNetworkTime [] None None JSFunction) [SendDone None, Datagram ?msg])
      = [Success (Date (Num (of_int (TimeFromYear 1900))))]"
    by (simp add: d)
  with f m show ?thesis
    by simp
qed


text \<open>
  Claim C7. A 48-byte reply whose bytes 40 to 47 are zero is decoded to the date whose
  time value is \<open>TimeFromYear 1900\<close>, that is 1900-01-01T00:00:00.000 UTC, and this date
  is handed to the callback.
\<close>

theorem zero_timestamp_is_epoch:
  assumes "length msg = 48" and "\<forall>i \<in> {40..47}. msg ! i = 0" and "enabled (Datagram msg) q"
  shows "milliseconds_of msg = Num 0 \<and>
    date_of msg = Date (Num (of_int (TimeFromYear 1900))) \<and>
    callbacks (step (Datagram msg) q) =
      callbacks q @ [Success (Date (Num (of_int (TimeFromYear 1900))))]"
proof -
  from assms(1) have len: "48 \<le> length msg"
    by simp
  from assms(2) have "msg ! 40 = 0" "msg ! 41 = 0" "msg ! 42 = 0" "msg ! 43 = 0"
    "msg ! 44 = 0" "msg ! 45 = 0" "msg ! 46 = 0" "msg ! 47 = 0"
    by simp_all
  then have I: "be32 (msg ! 40) (msg ! 41) (msg ! 42) (msg ! 43) = 0"
    and F: "be32 (msg ! 44) (msg ! 45) (msg ! 46) (msg ! 47) = 0"
    by (simp_all add: be32_def)
  have m: "milliseconds_of msg = Num 0"
    using milliseconds_of_reply [OF len] by (simp only: I F) simp
  have d: "date_of msg = Date (Num (of_int (TimeFromYear 1900)))"
    using date_of_reply [OF len] by (simp only: I F) simp
  from reply_delivered [OF assms(3)] m d show ?thesis
    by simp
qed

theorem zero_timestamp_is_epoch_witness:
  "length (replicate 48 (0 :: byte)) = 48 \<and>
   enabled (Datagram (replicate 48 0)) (run (getNetworkTime [] None None JSFunction) [SendDone None]) \<and>
   callbacks (step (Datagram (replicate 48 0))
     (run (getNetworkTime [] None None JSFunction) [SendDone None])) =
     [Success (Date (Num (- 2208988800000)))]"
proof -
  let ?q = "run (getNetworkTime [] None None JSFunction) [SendDone None]"
  have h1: "length (replicate 48 (0 :: byte)) = 48"
    by simp
  have h2: "\<forall>i \<in> {40..47}. replicate 48 (0 :: byte) ! i = 0"
    by simp
  have h3: "enabled (Datagram (replicate 48 0)) ?q"
    by (rule listening_after_send)
  have c: "callbacks ?q = []"
    by (simp add: getNetworkTime_def idle_def handler_defs)
  from zero_timestamp_is_epoch [OF h1 h2 h3] h1 h3 show ?thesis
    by (simp only: c append_Nil TimeFromYear_1900 of_int_minus of_int_numeral simp_thms)
qed

text \<open>
  Claim C8. A reply whose seconds are zero and whose fraction is \<open>0x80000000\<close> gives
  \<open>milliseconds = 500\<close> exactly, and the date handed to the callback is 500 ms after
  the first instant of 1900.
\<close>

theorem half_fraction_is_500_ms:
  assumes "48 \<le> length msg" and "\<forall>i \<in> {40..43}. msg ! i = 0"
    and "msg ! 44 = 0x80" and "\<forall>i \<in> {45..47}. msg ! i = 0"
    and "enabled (Datagram msg) q"
  shows "intpart_of msg = Num 0 \<and> fractpart_of msg = Num 0x80000000 \<and>
    milliseconds_of msg = Num 500 \<and>
    callbacks (step (Datagram msg) q) =
      callbacks q @ [Success (Date (Num (of_int (TimeFromYear 1900 + 500))))]"
proof -
  from assms(2,4) have "msg ! 40 = 0" "msg ! 41 = 0" "msg ! 42 = 0" "msg ! 43 = 0"
    "msg ! 45 = 0" "msg ! 46 = 0" "msg ! 47 = 0"
    by simp_all
  with assms(3) have I: "be32 (msg ! 40) (msg ! 41) (msg ! 42) (msg ! 43) = 0"
    and F: "be32 (msg ! 44) (msg ! 45) (msg ! 46) (msg ! 47) = 2147483648"
    by (simp_all add: be32_def)
  have i: "intpart_of msg = Num 0"
    using intpart_of_reply [of msg] assms(1) by (simp only: I) simp
  have f: "fractpart_of msg = Num 0x80000000"
    using fractpart_of_reply [OF assms(1)] by (simp only: F) simp
  have m: "milliseconds_of msg = Num 500"
    using milliseconds_of_reply [OF assms(1)] by (simp only: I F) (simp add: binary64_numeral)
  have d: "date_of msg = Date (Num (of_int (TimeFromYear 1900 + 500)))"
    using date_of_reply [OF assms(1)] by (simp only: I F) (simp add: binary64_numeral)
  from reply_delivered [OF assms(5)] i f m d show ?thesis
    by simp
qed

theorem half_fraction_is_500_ms_witness:
  "48 \<le> length (replicate 44 0 @ [0x80, 0, 0, 0 :: byte]) \<and>
   (replicate 44 0 @ [0x80, 0, 0, 0 :: byte]) ! 44 = 0x80 \<and>
   enabled (Datagram (replicate 44 0 @ [0x80, 0, 0, 0]))
     (run (getNetworkTime [] None None JSFunction) [SendDone None]) \<and>
   milliseconds_of (replicate 44 0 @ [0x80, 0, 0, 0]) = Num 500 \<and>
   callbacks (step (Datagram (replicate 44 0 @ [0x80, 0, 0, 0]))
     (run (getNetworkTime [] None None JSFunction) [SendDone None])) =
     [Success (Date (Num (- 2208988799500)))]"
proof -
  let ?msg = "replicate 44 0 @ [0x80, 0, 0, 0 :: byte]"
  let ?q = "run (getNetworkTime [] None None JSFunction) [SendDone None]"
  have h1: "48 \<le> length ?msg"
    by simp
  have h2: "\<forall>i \<in> {40..43}. ?msg ! i = 0"
    by (simp add: nth_append)
  have h3: "?msg ! 44 = 0x80"
    by (simp add: nth_append)
  have h4: "\<forall>i \<in> {45..47}. ?msg ! i = 0"
  proof
    fix i :: nat
    assume "i \<in> {45..47}"
    then have "i = 45 \<or> i = 46 \<or> i = 47"
      by auto
    then show "?msg ! i = 0"
      by (elim disjE) (simp_all add: nth_append)
  qed
  have h5: "enabled (Datagram ?msg) ?q"
    by (rule listening_after_send)
  have c: "callbacks ?q = []"
    by (simp add: getNetworkTime_def idle_def handler_defs)
  have d: "(of_int (TimeFromYear 1900 + 500) :: rat) = - 2208988799500"
    by (simp add: TimeFromYear_1900)
  from half_fraction_is_500_ms [OF h1 h2 h3 h4 h5] h1 h3 h5 show ?thesis
    by (simp only: c d append_Nil simp_thms)
qed

lemma milliseconds_of_short: "length msg < 48 \<Longrightarrow> milliseconds_of msg = NaN"
  by (simp add: milliseconds_of_def fractpart_of_short)

text \<open>
  Claim C10, amended. A datagram shorter than 48 bytes is still decoded: \<open>fractpart\<close> and
  \<open>milliseconds\<close> are \<open>NaN\<close>, \<open>intpart\<close> is \<open>NaN\<close> exactly when the datagram is shorter
  than 44 bytes, and the callback is invoked as a success with an invalid date, never with
  an error.
\<close>

theorem short_reply_is_success:
  assumes "length msg < 48" and "enabled (Datagram msg) q"
  shows "fractpart_of msg = NaN \<and> milliseconds_of msg = NaN \<and>
    (intpart_of msg = NaN \<longleftrightarrow> length msg < 44) \<and>
    (44 \<le> length msg \<longrightarrow>
       intpart_of msg = Num (of_nat (be32 (msg ! 40) (msg ! 41) (msg ! 42) (msg ! 43)))) \<and>
    callbacks (step (Datagram msg) q) = callbacks q @ [Success (Date NaN)]"
proof -
  have "intpart_of msg = NaN \<longleftrightarrow> length msg < 44"
  proof (cases "length msg < 44")
    case True
    then show ?thesis
      by (simp add: intpart_of_short)
  next
    case False
    then have "44 \<le> length msg"
      by simp
    from intpart_of_reply [OF this] False show ?thesis
      by simp
  qed
  with assms reply_delivered [OF assms(2)] show ?thesis
    by (simp add: fractpart_of_short milliseconds_of_short date_of_short intpart_of_reply)
qed

theorem short_reply_is_success_witness:
  "length (replicate 12 (0 :: byte)) < 48 \<and>
   enabled (Datagram (replicate 12 0)) (run (getNetworkTime [] None None JSFunction) [SendDone None]) \<and>
   intpart_of (replicate 12 0) = NaN \<and> fractpart_of (replicate 12 0) = NaN \<and>
   milliseconds_of (replicate 12 0) = NaN \<and>
   callbacks (step (Datagram (replicate 12 0))
     (run (getNetworkTime [] None None JSFunction) [SendDone None])) = [Success (Date NaN)]"
proof -
  let ?q = "run (getNetworkTime [] None None JSFunction) [SendDone None]"
  have h1: "length (replicate 12 (0 :: byte)) < 48"
    by simp
  have h2: "enabled (Datagram (replicate 12 0)) ?q"
    by (rule listening_after_send)
  have c: "callbacks ?q = []"
    by (simp add: getNetworkTime_def idle_def handler_defs)
  from short_reply_is_success [OF h1 h2] h1 h2 c show ?thesis
    by simp
qed

text \<open>
  Claim C10 as stated fails for the seconds: a datagram of 44 to 47 bytes holds all of
  bytes 40 to 43, and \<open>intpart\<close> is a number.
\<close>

theorem short_reply_with_seconds:
  "length (replicate 44 (0 :: byte)) < 48 \<and> intpart_of (replicate 44 0) = Num 0 \<and>
   intpart_of (replicate 44 0) \<noteq> NaN"
proof -
  have "44 \<le> length (replicate 44 (0 :: byte))"
    by simp
  from intpart_of_reply [OF this] show ?thesis
    by (simp add: be32_def)
qed

end
